theory Spec2Isabelle
  imports Main "HOL-Library.Multiset"
begin

section \<open>Data model\<close>

text \<open>
  The \<open>Post\<close> interface of the types package: \<open>{id, userId, title, body}\<close>. The
  numeric fields hold integers (server ids, and \<open>Date.now()\<close> milliseconds for
  placeholders), modelled as unbounded \<open>int\<close>.
\<close>

record post =
  post_id :: int
  userId :: int
  title :: string
  body :: string

text \<open>\<open>Omit<Post, 'id'>\<close>: the argument of the create operations.\<close>

record post_data =
  data_userId :: int
  data_title :: string
  data_body :: string

text \<open>\<open>Partial<Post>\<close>: every field of \<open>Post\<close>, the id included, is optional.\<close>

record partial_post =
  id_opt :: "int option"
  userId_opt :: "int option"
  title_opt :: "string option"
  body_opt :: "string option"

text \<open>
  An \<open>Error\<close> object is its message. A caught value is either an \<open>Error\<close> or something
  else; the stores test \<open>err instanceof Error\<close> and replace anything else by a fresh
  \<open>Error\<close> with a default message.
\<close>

datatype js_error = Error string

datatype thrown = ThrownError js_error | ThrownOther

definition as_error :: "string \<Rightarrow> thrown \<Rightarrow> js_error" where
  "as_error msg err = (case err of ThrownError e \<Rightarrow> e | ThrownOther \<Rightarrow> Error msg)"

text \<open>The store state \<open>{posts, loading, error}\<close>.\<close>

record posts_state =
  posts :: "post list"
  loading :: bool
  error :: "js_error option"

text \<open>The four operations of \<open>postsApi\<close> that the stores call.\<close>

datatype api_call =
    GetAll
  | Create post_data
  | Update int partial_post
  | Delete int

text \<open>
  One call of an asynchronous store operation: the states it publishes, in order (one per
  \<open>set\<close>), the remote calls it makes, and the value its promise resolves to (\<open>Inr\<close>) or
  rejects with (\<open>Inl\<close>).
\<close>

record 'a run =
  trace :: "posts_state list"
  calls :: "api_call list"
  result :: "js_error + 'a"

definition final :: "posts_state \<Rightarrow> 'a run \<Rightarrow> posts_state" where
  "final s r = last (s # trace r)"

text \<open>\<open>posts.find((p) => p.id === id)\<close>\<close>

definition find_post :: "int \<Rightarrow> post list \<Rightarrow> post option" where
  "find_post i ps = List.find (\<lambda>p. post_id p = i) ps"

text \<open>\<open>{ id: tempId, ...data }\<close>\<close>

definition optimisticPost :: "int \<Rightarrow> post_data \<Rightarrow> post" where
  "optimisticPost tempId d =
     \<lparr>post_id = tempId, userId = data_userId d, title = data_title d, body = data_body d\<rparr>"

text \<open>\<open>{ ...p, ...data }\<close>: a field present in \<open>data\<close> overrides the field of \<open>p\<close>.\<close>

definition merge_post :: "post \<Rightarrow> partial_post \<Rightarrow> post" where
  "merge_post p d =
     \<lparr>post_id = (case id_opt d of None \<Rightarrow> post_id p | Some v \<Rightarrow> v),
      userId = (case userId_opt d of None \<Rightarrow> userId p | Some v \<Rightarrow> v),
      title = (case title_opt d of None \<Rightarrow> title p | Some v \<Rightarrow> v),
      body = (case body_opt d of None \<Rightarrow> body p | Some v \<Rightarrow> v)\<rparr>"

text \<open>
  \<open>xs.sort(cmp)\<close>: the sort of the JavaScript engine is stable; a stable sort is an
  insertion sort that puts an element in front of the first one it does not exceed.
  The comparator of the stores is \<open>(a, b) => a.id - b.id\<close>.
\<close>

fun insert_cmp :: "('a \<Rightarrow> 'a \<Rightarrow> int) \<Rightarrow> 'a \<Rightarrow> 'a list \<Rightarrow> 'a list" where
  "insert_cmp cmp x [] = [x]"
| "insert_cmp cmp x (y # ys) =
     (if cmp x y \<le> 0 then x # y # ys else y # insert_cmp cmp x ys)"

definition js_sort :: "('a \<Rightarrow> 'a \<Rightarrow> int) \<Rightarrow> 'a list \<Rightarrow> 'a list" where
  "js_sort cmp xs = foldr (insert_cmp cmp) xs []"

definition by_id :: "post \<Rightarrow> post \<Rightarrow> int" where
  "by_id a b = post_id a - post_id b"

section \<open>The zustand store\<close>

text \<open>\<open>usePostsStore.fetchPosts\<close>; the argument is what \<open>postsApi.getAll()\<close> does.\<close>

definition zustand_fetchPosts :: "thrown + post list \<Rightarrow> posts_state \<Rightarrow> unit run" where
  "zustand_fetchPosts outcome s =
     (let s1 = s\<lparr>loading := True, error := None\<rparr> in
      case outcome of
        Inr data \<Rightarrow>
          \<lparr>trace = [s1, s1\<lparr>posts := data, loading := False\<rparr>],
           calls = [GetAll], result = Inr ()\<rparr>
      | Inl err \<Rightarrow>
          \<lparr>trace = [s1, s1\<lparr>error := Some (as_error ''Failed to fetch posts'' err),
                              loading := False\<rparr>],
           calls = [GetAll], result = Inr ()\<rparr>)"

text \<open>
  \<open>usePostsStore.createPost\<close>; \<open>tempId\<close> is the value of \<open>Date.now()\<close>, \<open>outcome\<close> is
  what \<open>postsApi.create(data)\<close> does.
\<close>

definition zustand_createPost ::
  "int \<Rightarrow> post_data \<Rightarrow> thrown + post \<Rightarrow> posts_state \<Rightarrow> post run" where
  "zustand_createPost tempId d outcome s =
     (let s1 = s\<lparr>posts := optimisticPost tempId d # posts s\<rparr> in
      case outcome of
        Inr newPost \<Rightarrow>
          \<lparr>trace = [s1, s1\<lparr>posts := map (\<lambda>p. if post_id p = tempId then newPost else p)
                                         (posts s1)\<rparr>],
           calls = [Create d], result = Inr newPost\<rparr>
      | Inl err \<Rightarrow>
          \<lparr>trace = [s1, s1\<lparr>posts := filter (\<lambda>p. post_id p \<noteq> tempId) (posts s1),
                              error := Some (as_error ''Failed to create post'' err)\<rparr>],
           calls = [Create d], result = Inl (as_error ''Failed to create post'' err)\<rparr>)"

text \<open>\<open>usePostsStore.updatePost\<close>\<close>

definition zustand_updatePost ::
  "int \<Rightarrow> partial_post \<Rightarrow> thrown + post \<Rightarrow> posts_state \<Rightarrow> post run" where
  "zustand_updatePost i d outcome s =
     (case find_post i (posts s) of
        None \<Rightarrow> \<lparr>trace = [], calls = [], result = Inl (Error ''Post not found'')\<rparr>
      | Some originalPost \<Rightarrow>
          (let s1 = s\<lparr>posts := map (\<lambda>p. if post_id p = i then merge_post p d else p)
                                   (posts s)\<rparr> in
           case outcome of
             Inr updatedPost \<Rightarrow>
               \<lparr>trace = [s1, s1\<lparr>posts := map (\<lambda>p. if post_id p = i then updatedPost else p)
                                              (posts s1)\<rparr>],
                calls = [Update i d], result = Inr updatedPost\<rparr>
           | Inl err \<Rightarrow>
               \<lparr>trace = [s1, s1\<lparr>posts := map (\<lambda>p. if post_id p = i then originalPost else p)
                                              (posts s1),
                                   error := Some (as_error ''Failed to update post'' err)\<rparr>],
                calls = [Update i d],
                result = Inl (as_error ''Failed to update post'' err)\<rparr>))"

text \<open>\<open>usePostsStore.deletePost\<close>\<close>

definition zustand_deletePost :: "int \<Rightarrow> thrown + unit \<Rightarrow> posts_state \<Rightarrow> unit run" where
  "zustand_deletePost i outcome s =
     (case find_post i (posts s) of
        None \<Rightarrow> \<lparr>trace = [], calls = [], result = Inl (Error ''Post not found'')\<rparr>
      | Some postToDelete \<Rightarrow>
          (let s1 = s\<lparr>posts := filter (\<lambda>p. post_id p \<noteq> i) (posts s)\<rparr> in
           case outcome of
             Inr _ \<Rightarrow> \<lparr>trace = [s1], calls = [Delete i], result = Inr ()\<rparr>
           | Inl err \<Rightarrow>
               \<lparr>trace = [s1, s1\<lparr>posts := js_sort by_id (posts s1 @ [postToDelete]),
                                   error := Some (as_error ''Failed to delete post'' err)\<rparr>],
                calls = [Delete i],
                result = Inl (as_error ''Failed to delete post'' err)\<rparr>))"

section \<open>The context-api provider\<close>

text \<open>
  \<open>PostsProvider\<close> keeps \<open>posts\<close>, \<open>loading\<close> and \<open>error\<close> in three \<open>useState\<close> cells.
  The setters called one after the other without an \<open>await\<close> between them are one
  published state.
\<close>

definition context_fetchPosts :: "thrown + post list \<Rightarrow> posts_state \<Rightarrow> unit run" where
  "context_fetchPosts outcome s =
     (let s1 = (s\<lparr>loading := True\<rparr>)\<lparr>error := None\<rparr> in
      case outcome of
        Inr data \<Rightarrow>
          \<lparr>trace = [s1, (s1\<lparr>posts := data\<rparr>)\<lparr>loading := False\<rparr>],
           calls = [GetAll], result = Inr ()\<rparr>
      | Inl err \<Rightarrow>
          \<lparr>trace = [s1, (s1\<lparr>error := Some (as_error ''Failed to fetch posts'' err)\<rparr>)
                            \<lparr>loading := False\<rparr>],
           calls = [GetAll], result = Inr ()\<rparr>)"

definition context_createPost ::
  "int \<Rightarrow> post_data \<Rightarrow> thrown + post \<Rightarrow> posts_state \<Rightarrow> post run" where
  "context_createPost tempId d outcome s =
     (let s1 = s\<lparr>posts := optimisticPost tempId d # posts s\<rparr> in
      case outcome of
        Inr newPost \<Rightarrow>
          \<lparr>trace = [s1, s1\<lparr>posts := map (\<lambda>p. if post_id p = tempId then newPost else p)
                                         (posts s1)\<rparr>],
           calls = [Create d], result = Inr newPost\<rparr>
      | Inl err \<Rightarrow>
          (let e = as_error ''Failed to create post'' err in
           \<lparr>trace = [s1, (s1\<lparr>posts := filter (\<lambda>p. post_id p \<noteq> tempId) (posts s1)\<rparr>)
                             \<lparr>error := Some e\<rparr>],
            calls = [Create d], result = Inl e\<rparr>))"

definition context_updatePost ::
  "int \<Rightarrow> partial_post \<Rightarrow> thrown + post \<Rightarrow> posts_state \<Rightarrow> post run" where
  "context_updatePost i d outcome s =
     (case find_post i (posts s) of
        None \<Rightarrow> \<lparr>trace = [], calls = [], result = Inl (Error ''Post not found'')\<rparr>
      | Some originalPost \<Rightarrow>
          (let s1 = s\<lparr>posts := map (\<lambda>p. if post_id p = i then merge_post p d else p)
                                   (posts s)\<rparr> in
           case outcome of
             Inr updatedPost \<Rightarrow>
               \<lparr>trace = [s1, s1\<lparr>posts := map (\<lambda>p. if post_id p = i then updatedPost else p)
                                              (posts s1)\<rparr>],
                calls = [Update i d], result = Inr updatedPost\<rparr>
           | Inl err \<Rightarrow>
               (let e = as_error ''Failed to update post'' err in
                \<lparr>trace = [s1, (s1\<lparr>posts := map (\<lambda>p. if post_id p = i then originalPost
                                                        else p) (posts s1)\<rparr>)
                                  \<lparr>error := Some e\<rparr>],
                 calls = [Update i d], result = Inl e\<rparr>)))"

definition context_deletePost :: "int \<Rightarrow> thrown + unit \<Rightarrow> posts_state \<Rightarrow> unit run" where
  "context_deletePost i outcome s =
     (case find_post i (posts s) of
        None \<Rightarrow> \<lparr>trace = [], calls = [], result = Inl (Error ''Post not found'')\<rparr>
      | Some postToDelete \<Rightarrow>
          (let s1 = s\<lparr>posts := filter (\<lambda>p. post_id p \<noteq> i) (posts s)\<rparr> in
           case outcome of
             Inr _ \<Rightarrow> \<lparr>trace = [s1], calls = [Delete i], result = Inr ()\<rparr>
           | Inl err \<Rightarrow>
               (let e = as_error ''Failed to delete post'' err in
                \<lparr>trace = [s1, (s1\<lparr>posts := js_sort by_id (posts s1 @ [postToDelete])\<rparr>)
                                  \<lparr>error := Some e\<rparr>],
                 calls = [Delete i], result = Inl e\<rparr>)))"

section \<open>The recoil actions\<close>

text \<open>
  The actions of \<open>postsState.ts\<close> receive the array \<open>posts\<close> and the plain setters
  \<open>setPosts\<close> and \<open>setError\<close> of the atoms; every \<open>setPosts\<close> is given a value
  computed from that array. The hook \<open>usePosts\<close> passes the array it read from the atom.
\<close>

definition createPostAction ::
  "int \<Rightarrow> post_data \<Rightarrow> post list \<Rightarrow> thrown + post \<Rightarrow> posts_state \<Rightarrow> post run" where
  "createPostAction tempId d ps outcome s =
     (let s1 = s\<lparr>posts := optimisticPost tempId d # ps\<rparr> in
      case outcome of
        Inr newPost \<Rightarrow>
          \<lparr>trace = [s1, s1\<lparr>posts := map (\<lambda>p. if post_id p = tempId then newPost else p) ps\<rparr>],
           calls = [Create d], result = Inr newPost\<rparr>
      | Inl err \<Rightarrow>
          (let e = as_error ''Failed to create post'' err in
           \<lparr>trace = [s1, (s1\<lparr>posts := filter (\<lambda>p. post_id p \<noteq> tempId) ps\<rparr>)
                             \<lparr>error := Some e\<rparr>],
            calls = [Create d], result = Inl e\<rparr>))"

definition updatePostAction ::
  "int \<Rightarrow> partial_post \<Rightarrow> post list \<Rightarrow> thrown + post \<Rightarrow> posts_state \<Rightarrow> post run" where
  "updatePostAction i d ps outcome s =
     (case find_post i ps of
        None \<Rightarrow> \<lparr>trace = [], calls = [], result = Inl (Error ''Post not found'')\<rparr>
      | Some originalPost \<Rightarrow>
          (let s1 = s\<lparr>posts := map (\<lambda>p. if post_id p = i then merge_post p d else p) ps\<rparr> in
           case outcome of
             Inr updatedPost \<Rightarrow>
               \<lparr>trace = [s1, s1\<lparr>posts := map (\<lambda>p. if post_id p = i then updatedPost else p)
                                              ps\<rparr>],
                calls = [Update i d], result = Inr updatedPost\<rparr>
           | Inl err \<Rightarrow>
               (let e = as_error ''Failed to update post'' err in
                \<lparr>trace = [s1, (s1\<lparr>posts := map (\<lambda>p. if post_id p = i then originalPost
                                                        else p) ps\<rparr>)
                                  \<lparr>error := Some e\<rparr>],
                 calls = [Update i d], result = Inl e\<rparr>)))"

definition deletePostAction ::
  "int \<Rightarrow> post list \<Rightarrow> thrown + unit \<Rightarrow> posts_state \<Rightarrow> unit run" where
  "deletePostAction i ps outcome s =
     (case find_post i ps of
        None \<Rightarrow> \<lparr>trace = [], calls = [], result = Inl (Error ''Post not found'')\<rparr>
      | Some postToDelete \<Rightarrow>
          (let s1 = s\<lparr>posts := filter (\<lambda>p. post_id p \<noteq> i) ps\<rparr> in
           case outcome of
             Inr _ \<Rightarrow> \<lparr>trace = [s1], calls = [Delete i], result = Inr ()\<rparr>
           | Inl err \<Rightarrow>
               (let e = as_error ''Failed to delete post'' err in
                \<lparr>trace = [s1, (s1\<lparr>posts := js_sort by_id (ps @ [postToDelete])\<rparr>)
                                  \<lparr>error := Some e\<rparr>],
                 calls = [Delete i], result = Inl e\<rparr>)))"

text \<open>The operations the recoil hook \<open>usePosts\<close> returns.\<close>

definition recoil_createPost ::
  "int \<Rightarrow> post_data \<Rightarrow> thrown + post \<Rightarrow> posts_state \<Rightarrow> post run" where
  "recoil_createPost tempId d outcome s = createPostAction tempId d (posts s) outcome s"

definition recoil_updatePost ::
  "int \<Rightarrow> partial_post \<Rightarrow> thrown + post \<Rightarrow> posts_state \<Rightarrow> post run" where
  "recoil_updatePost i d outcome s = updatePostAction i d (posts s) outcome s"

definition recoil_deletePost :: "int \<Rightarrow> thrown + unit \<Rightarrow> posts_state \<Rightarrow> unit run" where
  "recoil_deletePost i outcome s = deletePostAction i (posts s) outcome s"

section \<open>The redux-toolkit slice\<close>

text \<open>
  The reducers of \<open>postsSlice\<close>. They are written as mutations of a draft state; each
  is the function from the state before to the state after.
\<close>

text \<open>\<open>xs.findIndex(P)\<close>; \<open>None\<close> stands for the result \<open>-1\<close>.\<close>

fun findIndex :: "('a \<Rightarrow> bool) \<Rightarrow> 'a list \<Rightarrow> nat option" where
  "findIndex P [] = None"
| "findIndex P (x # xs) = (if P x then Some 0 else map_option Suc (findIndex P xs))"

definition optimisticCreate :: "posts_state \<Rightarrow> post \<Rightarrow> posts_state" where
  "optimisticCreate s payload = s\<lparr>posts := payload # posts s\<rparr>"

definition rollbackCreate :: "posts_state \<Rightarrow> int \<Rightarrow> posts_state" where
  "rollbackCreate s payload = s\<lparr>posts := filter (\<lambda>p. post_id p \<noteq> payload) (posts s)\<rparr>"

definition optimisticUpdate :: "posts_state \<Rightarrow> int \<Rightarrow> partial_post \<Rightarrow> posts_state" where
  "optimisticUpdate s i d =
     (case findIndex (\<lambda>p. post_id p = i) (posts s) of
        None \<Rightarrow> s
      | Some index \<Rightarrow> s\<lparr>posts := (posts s)[index := merge_post (posts s ! index) d]\<rparr>)"

definition rollbackUpdate :: "posts_state \<Rightarrow> int \<Rightarrow> post \<Rightarrow> posts_state" where
  "rollbackUpdate s i originalPost =
     (case findIndex (\<lambda>p. post_id p = i) (posts s) of
        None \<Rightarrow> s
      | Some index \<Rightarrow> s\<lparr>posts := (posts s)[index := originalPost]\<rparr>)"

definition optimisticDelete :: "posts_state \<Rightarrow> int \<Rightarrow> posts_state" where
  "optimisticDelete s payload = s\<lparr>posts := filter (\<lambda>p. post_id p \<noteq> payload) (posts s)\<rparr>"

definition fetchPosts_pending :: "posts_state \<Rightarrow> posts_state" where
  "fetchPosts_pending s = s\<lparr>loading := True, error := None\<rparr>"

definition fetchPosts_fulfilled :: "posts_state \<Rightarrow> post list \<Rightarrow> posts_state" where
  "fetchPosts_fulfilled s payload = s\<lparr>loading := False, posts := payload\<rparr>"

text \<open>
  \<open>createPostThunk.fulfilled\<close>: the placeholder is taken to be the first record whose
  id exceeds 1000; \<open>if (tempId)\<close> fails for no such record and for the id 0.
\<close>

definition createPostThunk_fulfilled :: "posts_state \<Rightarrow> post \<Rightarrow> posts_state" where
  "createPostThunk_fulfilled s payload =
     (case List.find (\<lambda>p. post_id p > 1000) (posts s) of
        None \<Rightarrow> s
      | Some q \<Rightarrow>
          if post_id q = 0 then s
          else (case findIndex (\<lambda>p. post_id p = post_id q) (posts s) of
                  None \<Rightarrow> s
                | Some index \<Rightarrow> s\<lparr>posts := (posts s)[index := payload]\<rparr>))"

definition updatePostThunk_fulfilled :: "posts_state \<Rightarrow> post \<Rightarrow> posts_state" where
  "updatePostThunk_fulfilled s payload =
     (case findIndex (\<lambda>p. post_id p = post_id payload) (posts s) of
        None \<Rightarrow> s
      | Some index \<Rightarrow> s\<lparr>posts := (posts s)[index := payload]\<rparr>)"

text \<open>\<open>rollbackDelete\<close>: \<open>push\<close> the payload, then \<open>sort\<close> with the same comparator.\<close>

definition rollbackDelete :: "posts_state \<Rightarrow> post \<Rightarrow> posts_state" where
  "rollbackDelete s payload = s\<lparr>posts := js_sort by_id (posts s @ [payload])\<rparr>"

text \<open>
  The operations of the redux hook \<open>usePosts\<close>: each dispatches a reducer action, awaits
  the thunk (\<open>outcome\<close> is what the unwrapped thunk does) and, when it throws, dispatches
  the rollback action. The slice has no case for a pending mutation thunk, and its
  cases for a rejected one and for a fulfilled delete leave the state as it is.
\<close>

definition redux_createPost ::
  "int \<Rightarrow> post_data \<Rightarrow> thrown + post \<Rightarrow> posts_state \<Rightarrow> post run" where
  "redux_createPost tempId d outcome s =
     (let s1 = optimisticCreate s (optimisticPost tempId d) in
      case outcome of
        Inr res \<Rightarrow>
          \<lparr>trace = [s1, createPostThunk_fulfilled s1 res], calls = [Create d],
           result = Inr res\<rparr>
      | Inl err \<Rightarrow>
          \<lparr>trace = [s1, rollbackCreate s1 tempId], calls = [Create d],
           result = Inl (as_error ''Failed to create post'' err)\<rparr>)"

definition redux_updatePost ::
  "int \<Rightarrow> partial_post \<Rightarrow> thrown + post \<Rightarrow> posts_state \<Rightarrow> post run" where
  "redux_updatePost i d outcome s =
     (case find_post i (posts s) of
        None \<Rightarrow> \<lparr>trace = [], calls = [], result = Inl (Error ''Post not found'')\<rparr>
      | Some originalPost \<Rightarrow>
          (let s1 = optimisticUpdate s i d in
           case outcome of
             Inr res \<Rightarrow>
               \<lparr>trace = [s1, updatePostThunk_fulfilled s1 res], calls = [Update i d],
                result = Inr res\<rparr>
           | Inl err \<Rightarrow>
               \<lparr>trace = [s1, rollbackUpdate s1 i originalPost], calls = [Update i d],
                result = Inl (as_error ''Failed to update post'' err)\<rparr>))"

definition redux_deletePost :: "int \<Rightarrow> thrown + unit \<Rightarrow> posts_state \<Rightarrow> unit run" where
  "redux_deletePost i outcome s =
     (case find_post i (posts s) of
        None \<Rightarrow> \<lparr>trace = [], calls = [], result = Inl (Error ''Post not found'')\<rparr>
      | Some postToDelete \<Rightarrow>
          (let s1 = optimisticDelete s i in
           case outcome of
             Inr _ \<Rightarrow> \<lparr>trace = [s1], calls = [Delete i], result = Inr ()\<rparr>
           | Inl err \<Rightarrow>
               \<lparr>trace = [s1, rollbackDelete s1 postToDelete], calls = [Delete i],
                result = Inl (as_error ''Failed to delete post'' err)\<rparr>))"

section \<open>Example data\<close>

definition post3 :: post where
  "post3 = \<lparr>post_id = 3, userId = 1, title = ''third'', body = ''c''\<rparr>"

definition post5 :: post where
  "post5 = \<lparr>post_id = 5, userId = 1, title = ''X'', body = ''e''\<rparr>"

definition post7 :: post where
  "post7 = \<lparr>post_id = 7, userId = 2, title = ''seventh'', body = ''g''\<rparr>"

definition post101 :: post where
  "post101 = \<lparr>post_id = 101, userId = 1, title = ''A'', body = ''B''\<rparr>"

definition dataAB :: post_data where
  "dataAB = \<lparr>data_userId = 1, data_title = ''A'', data_body = ''B''\<rparr>"

definition titleY :: partial_post where
  "titleY = \<lparr>id_opt = None, userId_opt = None, title_opt = Some ''Y'', body_opt = None\<rparr>"

definition store357 :: posts_state where
  "store357 = \<lparr>posts = [post3, post5, post7], loading = False, error = None\<rparr>"

text \<open>A record whose id is a millisecond timestamp, as a placeholder has.\<close>

definition postT :: post where
  "postT = \<lparr>post_id = 1762041600000, userId = 1, title = ''A'', body = ''B''\<rparr>"

definition storeT :: posts_state where
  "storeT = \<lparr>posts = [postT, post3, post5, post7], loading = False, error = None\<rparr>"

definition emptyStore :: posts_state where
  "emptyStore = \<lparr>posts = [], loading = False, error = None\<rparr>"

definition idTo7 :: partial_post where
  "idTo7 = \<lparr>id_opt = Some 7, userId_opt = None, title_opt = Some ''Y'', body_opt = None\<rparr>"

definition store5 :: posts_state where
  "store5 = \<lparr>posts = [post5], loading = False, error = None\<rparr>"

text \<open>A store in which two records have the id 101.\<close>

definition store101twice :: posts_state where
  "store101twice =
     \<lparr>posts = [post101, post101, post3, post5, post7], loading = False, error = None\<rparr>"

section \<open>Sequences of operations\<close>

text \<open>
  A create, update or delete of the zustand store whose remote call succeeds; the
  operation carries the value of \<open>Date.now()\<close> (for a create) and the record the remote
  call returns.
\<close>

datatype op = OpCreate int post_data post | OpUpdate int partial_post post | OpDelete int

text \<open>The states one operation publishes.\<close>

fun op_trace :: "op \<Rightarrow> posts_state \<Rightarrow> posts_state list" where
  "op_trace (OpCreate tempId d R) s = trace (zustand_createPost tempId d (Inr R) s)"
| "op_trace (OpUpdate i d R) s = trace (zustand_updatePost i d (Inr R) s)"
| "op_trace (OpDelete i) s = trace (zustand_deletePost i (Inr ()) s)"

text \<open>
  The states a sequence of operations publishes, one operation after the other: each
  starts in the last state the one before it published.
\<close>

fun exec :: "op list \<Rightarrow> posts_state \<Rightarrow> posts_state list" where
  "exec [] s = []"
| "exec (x # xs) s = op_trace x s @ exec xs (last (s # op_trace x s))"

text \<open>
  The ids an operation brings in are new: the temporary id of a create and the id of
  the record its remote call returns belong to no record of the collection; the data
  of an update carries no id other than the target id, and its remote call returns a
  record with the target id.
\<close>

fun op_fresh :: "op \<Rightarrow> posts_state \<Rightarrow> bool" where
  "op_fresh (OpCreate tempId d R) s =
     (tempId \<notin> set (map post_id (posts s)) \<and> post_id R \<notin> set (map post_id (posts s)))"
| "op_fresh (OpUpdate i d R) s = ((id_opt d = None \<or> id_opt d = Some i) \<and> post_id R = i)"
| "op_fresh (OpDelete i) s = True"

fun ops_fresh :: "op list \<Rightarrow> posts_state \<Rightarrow> bool" where
  "ops_fresh [] s = True"
| "ops_fresh (x # xs) s = (op_fresh x s \<and> ops_fresh xs (last (s # op_trace x s)))"

text \<open>The store after a successful fetch of \<open>S\<close>.\<close>

definition fetched :: "post list \<Rightarrow> posts_state \<Rightarrow> posts_state" where
  "fetched S s = final s (zustand_fetchPosts (Inr S) s)"

text \<open>
  The same sequences run on the redux slice. Its reconciliation of a create looks for
  the first record with an id above 1000, so there the temporary id has to be above
  1000 as well, as every \<open>Date.now()\<close> of this century is.
\<close>

fun redux_op_trace :: "op \<Rightarrow> posts_state \<Rightarrow> posts_state list" where
  "redux_op_trace (OpCreate tempId d R) s = trace (redux_createPost tempId d (Inr R) s)"
| "redux_op_trace (OpUpdate i d R) s = trace (redux_updatePost i d (Inr R) s)"
| "redux_op_trace (OpDelete i) s = trace (redux_deletePost i (Inr ()) s)"

fun redux_exec :: "op list \<Rightarrow> posts_state \<Rightarrow> posts_state list" where
  "redux_exec [] s = []"
| "redux_exec (x # xs) s = redux_op_trace x s @ redux_exec xs (last (s # redux_op_trace x s))"

fun redux_op_fresh :: "op \<Rightarrow> posts_state \<Rightarrow> bool" where
  "redux_op_fresh (OpCreate tempId d R) s = (op_fresh (OpCreate tempId d R) s \<and> 1000 < tempId)"
| "redux_op_fresh x s = op_fresh x s"

fun redux_ops_fresh :: "op list \<Rightarrow> posts_state \<Rightarrow> bool" where
  "redux_ops_fresh [] s = True"
| "redux_ops_fresh (x # xs) s =
     (redux_op_fresh x s \<and> redux_ops_fresh xs (last (s # redux_op_trace x s)))"

definition redux_fetched :: "post list \<Rightarrow> posts_state \<Rightarrow> posts_state" where
  "redux_fetched S s = fetchPosts_fulfilled (fetchPosts_pending s) S"

text \<open>
  Two runs: one in which the server gives new ids, and one in which it answers two
  creates with the same id 101, as the server named in the API configuration does.
\<close>

definition serverIds_ops :: "op list" where
  "serverIds_ops =
     [OpCreate 1762041600000 dataAB post101,
      OpUpdate 5 titleY (post5\<lparr>title := ''Y''\<rparr>),
      OpDelete 3]"

definition twoCreates_ops :: "op list" where
  "twoCreates_ops =
     [OpCreate 1762041600000 dataAB post101,
      OpCreate 1762041660000 dataAB post101]"

section \<open>Lookup and sorting\<close>

lemma insert_cmp_by_id: "insert_cmp by_id x ys = insort_key post_id x ys"
  by (induction ys) (auto simp: by_id_def)

lemma js_sort_by_id: "js_sort by_id xs = sort_key post_id xs"
  by (induction xs) (simp_all add: js_sort_def insert_cmp_by_id sort_key_def)

lemma find_post_None: "find_post i ps = None \<longleftrightarrow> i \<notin> set (map post_id ps)"
  by (auto simp: find_post_def find_None_iff)

lemma find_post_Some: "find_post i ps = Some r \<Longrightarrow> r \<in> set ps \<and> post_id r = i"
  by (auto simp: find_post_def find_Some_iff)

lemma find_post_distinct:
  "distinct (map post_id ps) \<Longrightarrow> r \<in> set ps \<Longrightarrow> find_post (post_id r) ps = Some r"
  by (induction ps) (auto simp: find_post_def)

lemma filter_id_absent:
  "i \<notin> set (map post_id ps) \<Longrightarrow> filter (\<lambda>p. post_id p \<noteq> i) ps = ps"
  by (induction ps) auto

lemma merge_post_same_id:
  "id_opt d = None \<or> id_opt d = Some (post_id p) \<Longrightarrow> post_id (merge_post p d) = post_id p"
  by (auto simp: merge_post_def)

lemma map_replace_distinct:
  assumes "distinct (map post_id ps)" and "find_post i ps = Some r"
  shows "map (\<lambda>p. if post_id p = i then r else p) ps = ps"
proof -
  from assms(2) have r: "r \<in> set ps" "post_id r = i"
    by (simp_all add: find_post_Some)
  from assms(1) have "inj_on post_id (set ps)"
    by (simp add: distinct_map)
  with r have "\<And>p. p \<in> set ps \<Longrightarrow> post_id p = i \<Longrightarrow> p = r"
    by (auto dest: inj_onD)
  then show ?thesis
    by (intro map_idI) auto
qed

lemma distinct_split_at_record:
  assumes "distinct (map post_id ps)" and "find_post i ps = Some r"
  shows "\<exists>xs ys. ps = xs @ r # ys \<and> filter (\<lambda>p. post_id p \<noteq> i) ps = xs @ ys"
proof -
  from assms(2) have r: "r \<in> set ps" "post_id r = i"
    by (simp_all add: find_post_Some)
  then obtain xs ys where ps: "ps = xs @ r # ys"
    by (auto dest: split_list)
  with assms(1) r(2) have "i \<notin> set (map post_id xs)" "i \<notin> set (map post_id ys)"
    by auto
  then have "filter (\<lambda>p. post_id p \<noteq> i) xs = xs" "filter (\<lambda>p. post_id p \<noteq> i) ys = ys"
    by (simp_all add: filter_id_absent)
  with ps r(2) show ?thesis by auto
qed

lemma mset_filter_record:
  assumes "distinct (map post_id ps)" and "find_post i ps = Some r"
  shows "mset (filter (\<lambda>p. post_id p \<noteq> i) ps @ [r]) = mset ps"
proof -
  from distinct_split_at_record [OF assms] obtain xs ys
    where "ps = xs @ r # ys" "filter (\<lambda>p. post_id p \<noteq> i) ps = xs @ ys" by blast
  then show ?thesis by simp
qed

lemma sort_restores_sorted_collection:
  assumes d: "distinct (map post_id ps)" and f: "find_post i ps = Some r"
      and s: "sorted (map post_id ps)"
  shows "sort_key post_id (filter (\<lambda>p. post_id p \<noteq> i) ps @ [r]) = ps"
proof (rule properties_for_sort_key)
  show "mset ps = mset (filter (\<lambda>p. post_id p \<noteq> i) ps @ [r])"
    using mset_filter_record [OF d f] by simp
  show "sorted (map post_id ps)" by (rule s)
  fix k assume k: "k \<in> set ps"
  from f have r: "r \<in> set ps" "post_id r = i"
    by (simp_all add: find_post_Some)
  from d have inj: "inj_on post_id (set ps)"
    by (simp add: distinct_map)
  have one: "\<And>q. q \<in> set ps \<Longrightarrow> filter (\<lambda>x. post_id q = post_id x) ps = [q]"
  proof -
    fix q assume q: "q \<in> set ps"
    then obtain xs ys where ps: "ps = xs @ q # ys" by (auto dest: split_list)
    with d have "post_id q \<notin> set (map post_id xs)" "post_id q \<notin> set (map post_id ys)"
      by auto
    then have "filter (\<lambda>x. post_id q = post_id x) xs = []"
              "filter (\<lambda>x. post_id q = post_id x) ys = []"
      by (auto simp: filter_empty_conv)
    with ps show "filter (\<lambda>x. post_id q = post_id x) ps = [q]" by simp
  qed
  show "filter (\<lambda>x. post_id k = post_id x) ps
      = filter (\<lambda>x. post_id k = post_id x) (filter (\<lambda>p. post_id p \<noteq> i) ps @ [r])"
  proof (cases "post_id k = i")
    case True
    with k r inj have "k = r" by (auto dest: inj_onD)
    with r one [OF r(1)] show ?thesis
      by (auto simp: filter_empty_conv)
  next
    case False
    have "filter (\<lambda>x. post_id k = post_id x) (filter (\<lambda>p. post_id p \<noteq> i) ps)
        = filter (\<lambda>x. post_id k = post_id x) ps"
      using False by (auto intro: filter_cong)
    with False r one [OF k] show ?thesis by auto
  qed
qed

lemma inversion_reordered:
  assumes srt: "sorted (map post_id after)"
      and sub: "set rest \<subseteq> set after"
      and kl: "k < l" "l < length rest" "post_id (rest ! l) < post_id (rest ! k)"
  shows "\<exists>k' l'. l' < k' \<and> k' < length after \<and> after ! l' = rest ! l \<and> after ! k' = rest ! k"
proof -
  from kl sub have "rest ! k \<in> set after" "rest ! l \<in> set after"
    by (auto simp: subset_iff)
  then obtain k' l' where k': "k' < length after" "after ! k' = rest ! k"
    and l': "l' < length after" "after ! l' = rest ! l"
    by (auto simp: in_set_conv_nth)
  have "l' < k'"
  proof (rule ccontr)
    assume "\<not> l' < k'"
    then have "k' \<le> l'" by simp
    with srt l'(1) have "map post_id after ! k' \<le> map post_id after ! l'"
      by (intro sorted_nth_mono) simp_all
    with k' l' kl(3) show False by simp
  qed
  with k' l' show ?thesis by blast
qed

lemma map_id_replace_same:
  "(\<And>p. post_id p = i \<Longrightarrow> post_id (f p) = i) \<Longrightarrow>
   map post_id (map (\<lambda>p. if post_id p = i then f p else p) ps) = map post_id ps"
  by (induction ps) auto

lemma create_keeps_distinct:
  assumes "distinct (map post_id (posts s))"
      and "tempId \<notin> set (map post_id (posts s))" and "post_id R \<notin> set (map post_id (posts s))"
  shows "\<forall>s' \<in> set (trace (zustand_createPost tempId d (Inr R) s)). distinct (map post_id (posts s'))"
proof -
  have "map (\<lambda>p. if post_id p = tempId then R else p) (posts s) = posts s"
    using assms(2) by (intro map_idI) auto
  with assms show ?thesis
    by (simp add: zustand_createPost_def optimisticPost_def)
qed

lemma update_keeps_distinct:
  assumes "distinct (map post_id (posts s))"
      and "id_opt d = None \<or> id_opt d = Some i" and "post_id R = i"
  shows "\<forall>s' \<in> set (trace (zustand_updatePost i d (Inr R) s)). distinct (map post_id (posts s'))"
proof (cases "find_post i (posts s)")
  case None
  then show ?thesis by (simp add: zustand_updatePost_def)
next
  case (Some r)
  have keep: "\<And>p. post_id p = i \<Longrightarrow> post_id (merge_post p d) = i"
    using assms(2) merge_post_same_id by blast
  have 1: "map post_id (map (\<lambda>p. if post_id p = i then merge_post p d else p) (posts s))
         = map post_id (posts s)"
    using keep by (rule map_id_replace_same)
  have 2: "map post_id (map (\<lambda>p. if post_id p = i then R else p)
             (map (\<lambda>p. if post_id p = i then merge_post p d else p) (posts s)))
         = map post_id (map (\<lambda>p. if post_id p = i then merge_post p d else p) (posts s))"
    using assms(3) by (intro map_id_replace_same) simp
  from Some assms(1) show ?thesis
    by (simp add: zustand_updatePost_def 1 2 del: map_map)
qed

lemma delete_keeps_distinct:
  assumes "distinct (map post_id (posts s))"
  shows "\<forall>s' \<in> set (trace (zustand_deletePost i (Inr ()) s)). distinct (map post_id (posts s'))"
  using assms
  by (cases "find_post i (posts s)") (simp_all add: zustand_deletePost_def distinct_map_filter)

lemma op_keeps_distinct:
  assumes "distinct (map post_id (posts s))" and "op_fresh x s"
  shows "\<forall>s' \<in> set (op_trace x s). distinct (map post_id (posts s'))"
proof (cases x)
  case (OpCreate tempId d R)
  with assms create_keeps_distinct [of s tempId R d] show ?thesis by simp
next
  case (OpUpdate i d R)
  with assms update_keeps_distinct [of s d i R] show ?thesis by simp
next
  case (OpDelete i)
  with assms delete_keeps_distinct [of s i] show ?thesis by simp
qed

lemma exec_keeps_distinct:
  "distinct (map post_id (posts s)) \<Longrightarrow> ops_fresh ops s \<Longrightarrow>
   \<forall>s' \<in> set (exec ops s). distinct (map post_id (posts s'))"
proof (induction ops arbitrary: s)
  case Nil
  then show ?case by simp
next
  case (Cons x xs)
  from Cons.prems(2) have fr: "op_fresh x s"
    and rest: "ops_fresh xs (last (s # op_trace x s))"
    by (simp_all del: last.simps)
  from Cons.prems(1) fr have tr: "\<forall>s' \<in> set (op_trace x s). distinct (map post_id (posts s'))"
    by (rule op_keeps_distinct)
  with Cons.prems(1) have "distinct (map post_id (posts (last (s # op_trace x s))))"
    by (cases "op_trace x s = []") simp_all
  from Cons.IH [OF this rest]
  have tl: "\<forall>s' \<in> set (exec xs (last (s # op_trace x s))). distinct (map post_id (posts s'))" .
  have "set (exec (x # xs) s) = set (op_trace x s) \<union> set (exec xs (last (s # op_trace x s)))"
    by (simp del: last.simps)
  with tr tl show ?case by blast
qed

lemma findIndex_Some:
  "findIndex P xs = Some k \<Longrightarrow> k < length xs \<and> P (xs ! k)"
proof (induction xs arbitrary: k)
  case Nil
  then show ?case by simp
next
  case (Cons x xs)
  then show ?case by (cases "P x") auto
qed

lemma ids_list_update_same:
  "k < length ps \<Longrightarrow> post_id v = post_id (ps ! k) \<Longrightarrow>
   map post_id (ps[k := v]) = map post_id ps"
  by (simp add: map_update list_update_same_conv)

lemma redux_create_trace:
  assumes "1000 < tempId"
  shows "trace (redux_createPost tempId d (Inr R) s)
       = [s\<lparr>posts := optimisticPost tempId d # posts s\<rparr>, s\<lparr>posts := R # posts s\<rparr>]"
  using assms
  by (simp add: redux_createPost_def optimisticCreate_def createPostThunk_fulfilled_def
      optimisticPost_def)

lemma redux_create_keeps_distinct:
  assumes "distinct (map post_id (posts s))" and "1000 < tempId"
      and "tempId \<notin> set (map post_id (posts s))" and "post_id R \<notin> set (map post_id (posts s))"
  shows "\<forall>s' \<in> set (trace (redux_createPost tempId d (Inr R) s)).
           distinct (map post_id (posts s'))"
  using assms by (simp add: redux_create_trace optimisticPost_def)

lemma optimisticUpdate_ids:
  assumes "id_opt d = None \<or> id_opt d = Some i"
  shows "map post_id (posts (optimisticUpdate s i d)) = map post_id (posts s)"
proof (cases "findIndex (\<lambda>p. post_id p = i) (posts s)")
  case None
  then show ?thesis by (simp add: optimisticUpdate_def)
next
  case (Some k)
  then have k: "k < length (posts s)" "post_id (posts s ! k) = i"
    by (auto dest: findIndex_Some)
  with assms have "post_id (merge_post (posts s ! k) d) = post_id (posts s ! k)"
    by (intro merge_post_same_id) simp
  with k Some show ?thesis
    by (simp add: optimisticUpdate_def ids_list_update_same)
qed

lemma updatePostThunk_fulfilled_ids:
  "map post_id (posts (updatePostThunk_fulfilled s R)) = map post_id (posts s)"
proof (cases "findIndex (\<lambda>p. post_id p = post_id R) (posts s)")
  case None
  then show ?thesis by (simp add: updatePostThunk_fulfilled_def)
next
  case (Some k)
  then have "k < length (posts s)" "post_id (posts s ! k) = post_id R"
    by (auto dest: findIndex_Some)
  with Some show ?thesis
    by (simp add: updatePostThunk_fulfilled_def ids_list_update_same)
qed

lemma redux_update_keeps_distinct:
  assumes "distinct (map post_id (posts s))" and "id_opt d = None \<or> id_opt d = Some i"
  shows "\<forall>s' \<in> set (trace (redux_updatePost i d (Inr R) s)).
           distinct (map post_id (posts s'))"
  using assms(1) optimisticUpdate_ids [OF assms(2), of s]
    updatePostThunk_fulfilled_ids [of "optimisticUpdate s i d" R]
  by (cases "find_post i (posts s)") (simp_all add: redux_updatePost_def Let_def)

lemma redux_delete_keeps_distinct:
  assumes "distinct (map post_id (posts s))"
  shows "\<forall>s' \<in> set (trace (redux_deletePost i (Inr ()) s)). distinct (map post_id (posts s'))"
  using assms
  by (cases "find_post i (posts s)")
     (simp_all add: redux_deletePost_def optimisticDelete_def distinct_map_filter)

lemma redux_op_keeps_distinct:
  assumes "distinct (map post_id (posts s))" and "redux_op_fresh x s"
  shows "\<forall>s' \<in> set (redux_op_trace x s). distinct (map post_id (posts s'))"
proof (cases x)
  case (OpCreate tempId d R)
  with assms redux_create_keeps_distinct [of s tempId R d] show ?thesis by simp
next
  case (OpUpdate i d R)
  with assms redux_update_keeps_distinct [of s d i R] show ?thesis by simp
next
  case (OpDelete i)
  with assms redux_delete_keeps_distinct [of s i] show ?thesis by simp
qed

lemma redux_exec_keeps_distinct:
  "distinct (map post_id (posts s)) \<Longrightarrow> redux_ops_fresh ops s \<Longrightarrow>
   \<forall>s' \<in> set (redux_exec ops s). distinct (map post_id (posts s'))"
proof (induction ops arbitrary: s)
  case Nil
  then show ?case by simp
next
  case (Cons x xs)
  from Cons.prems(2) have fr: "redux_op_fresh x s"
    and rest: "redux_ops_fresh xs (last (s # redux_op_trace x s))"
    by (simp_all del: last.simps)
  from Cons.prems(1) fr
  have tr: "\<forall>s' \<in> set (redux_op_trace x s). distinct (map post_id (posts s'))"
    by (rule redux_op_keeps_distinct)
  with Cons.prems(1) have "distinct (map post_id (posts (last (s # redux_op_trace x s))))"
    by (cases "redux_op_trace x s = []") simp_all
  from Cons.IH [OF this rest]
  have tl: "\<forall>s' \<in> set (redux_exec xs (last (s # redux_op_trace x s))).
              distinct (map post_id (posts s'))" .
  have "set (redux_exec (x # xs) s)
      = set (redux_op_trace x s) \<union> set (redux_exec xs (last (s # redux_op_trace x s)))"
    by (simp del: last.simps)
  with tr tl show ?case by blast
qed

section \<open>Fetching\<close>

text \<open>
  C7. Whatever the store holds, a fetch whose remote call returns the sequence \<open>S\<close>
  leaves the collection equal to \<open>S\<close> and \<open>loading\<close> false, and the state published at
  the start of the fetch has \<open>error\<close> cleared (it is still clear at the end). This holds
  for the zustand store and for the context-api provider.
\<close>

theorem fetch_replaces_collection:
  "posts (final s (zustand_fetchPosts (Inr S) s)) = S
   \<and> loading (final s (zustand_fetchPosts (Inr S) s)) = False
   \<and> error (hd (trace (zustand_fetchPosts (Inr S) s))) = None
   \<and> loading (hd (trace (zustand_fetchPosts (Inr S) s))) = True
   \<and> error (final s (zustand_fetchPosts (Inr S) s)) = None
   \<and> calls (zustand_fetchPosts (Inr S) s) = [GetAll]
   \<and> posts (final s (context_fetchPosts (Inr S) s)) = S
   \<and> loading (final s (context_fetchPosts (Inr S) s)) = False
   \<and> error (hd (trace (context_fetchPosts (Inr S) s))) = None
   \<and> error (final s (context_fetchPosts (Inr S) s)) = None"
  by (simp add: zustand_fetchPosts_def context_fetchPosts_def final_def)

section \<open>Operations on an absent id\<close>

text \<open>
  C6. When no record of the collection has the id \<open>i\<close>, \<open>updatePost\<close> and \<open>deletePost\<close>
  of the zustand store reject with the error \<open>Post not found\<close>, make no remote call and
  publish no state: the collection and the error field are what they were. The
  context-api provider does the same.
\<close>

theorem absent_id_fails_locally:
  assumes "i \<notin> set (map post_id (posts s))"
  shows "zustand_updatePost i d outcome s =
           \<lparr>trace = [], calls = [], result = Inl (Error ''Post not found'')\<rparr>
       \<and> zustand_deletePost i outcome' s =
           \<lparr>trace = [], calls = [], result = Inl (Error ''Post not found'')\<rparr>
       \<and> final s (zustand_updatePost i d outcome s) = s
       \<and> final s (zustand_deletePost i outcome' s) = s
       \<and> context_updatePost i d outcome s =
           \<lparr>trace = [], calls = [], result = Inl (Error ''Post not found'')\<rparr>
       \<and> context_deletePost i outcome' s =
           \<lparr>trace = [], calls = [], result = Inl (Error ''Post not found'')\<rparr>"
proof -
  from assms have "find_post i (posts s) = None"
    by (simp only: find_post_None not_False_eq_True)
  then show ?thesis
    by (simp add: zustand_updatePost_def zustand_deletePost_def context_updatePost_def
        context_deletePost_def final_def)
qed

theorem absent_id_fails_locally_witness:
  "4 \<notin> set (map post_id (posts store357))
   \<and> zustand_updatePost 4 titleY (Inr post101) store357 =
       \<lparr>trace = [], calls = [], result = Inl (Error ''Post not found'')\<rparr>
   \<and> zustand_deletePost 4 (Inr ()) store357 =
       \<lparr>trace = [], calls = [], result = Inl (Error ''Post not found'')\<rparr>
   \<and> final store357 (zustand_updatePost 4 titleY (Inr post101) store357) = store357
   \<and> final store357 (zustand_deletePost 4 (Inr ()) store357) = store357"
proof -
  have h: "4 \<notin> set (map post_id (posts store357))"
    by (simp add: store357_def post3_def post5_def post7_def)
  from absent_id_fails_locally [OF h, of titleY "Inr post101" "Inr ()"] h
  show ?thesis by (simp add: final_def)
qed

text \<open>
  C10. The rejection for an absent id is an ordinary \<open>Error\<close> with the message
  \<open>Post not found\<close>, in the zustand store and in the context-api provider. A failed
  remote call on a present id rejects with an \<open>Error\<close> too, the one the remote call
  threw; the two rejections are the same value exactly when that error's message is
  \<open>Post not found\<close>, so only the message tells them apart.
\<close>

theorem not_found_is_plain_error:
  assumes "i \<notin> set (map post_id (posts s))" and "j \<in> set (map post_id (posts s))"
  shows "result (zustand_updatePost i d out s) = Inl (Error ''Post not found'')
       \<and> result (zustand_deletePost i out' s) = Inl (Error ''Post not found'')
       \<and> result (context_updatePost i d out s) = Inl (Error ''Post not found'')
       \<and> result (context_deletePost i out' s) = Inl (Error ''Post not found'')
       \<and> result (zustand_updatePost j d (Inl (ThrownError (Error m))) s) = Inl (Error m)
       \<and> result (zustand_deletePost j (Inl (ThrownError (Error m))) s) = Inl (Error m)
       \<and> (result (zustand_updatePost j d (Inl (ThrownError (Error m))) s)
            = result (zustand_updatePost i d out s) \<longleftrightarrow> m = ''Post not found'')
       \<and> (result (zustand_deletePost j (Inl (ThrownError (Error m))) s)
            = result (zustand_deletePost i out' s) \<longleftrightarrow> m = ''Post not found'')"
proof -
  from assms(1) have n: "find_post i (posts s) = None"
    by (simp only: find_post_None not_False_eq_True)
  from assms(2) obtain r where r: "find_post j (posts s) = Some r"
    using find_post_None [of j "posts s"] by (cases "find_post j (posts s)") auto
  have "result (zustand_updatePost i d out s) = Inl (Error ''Post not found'')"
    using n by (simp add: zustand_updatePost_def)
  moreover have "result (zustand_deletePost i out' s) = Inl (Error ''Post not found'')"
    using n by (simp add: zustand_deletePost_def)
  moreover have "result (context_updatePost i d out s) = Inl (Error ''Post not found'')"
    using n by (simp add: context_updatePost_def)
  moreover have "result (context_deletePost i out' s) = Inl (Error ''Post not found'')"
    using n by (simp add: context_deletePost_def)
  moreover have
    "result (zustand_updatePost j d (Inl (ThrownError (Error m))) s) = Inl (Error m)"
    using r by (simp add: zustand_updatePost_def as_error_def)
  moreover have
    "result (zustand_deletePost j (Inl (ThrownError (Error m))) s) = Inl (Error m)"
    using r by (simp add: zustand_deletePost_def as_error_def)
  ultimately show ?thesis by simp
qed

theorem not_found_is_plain_error_witness:
  "4 \<notin> set (map post_id (posts store357)) \<and> 5 \<in> set (map post_id (posts store357))
   \<and> result (zustand_updatePost 4 titleY (Inr post101) store357)
       = Inl (Error ''Post not found'')
   \<and> result (zustand_updatePost 5 titleY
        (Inl (ThrownError (Error ''Failed to update post''))) store357)
       = Inl (Error ''Failed to update post'')
   \<and> result (zustand_updatePost 5 titleY
        (Inl (ThrownError (Error ''Post not found''))) store357)
       = result (zustand_updatePost 4 titleY (Inr post101) store357)"
proof -
  have h: "4 \<notin> set (map post_id (posts store357))"
    and k: "5 \<in> set (map post_id (posts store357))"
    by (simp_all add: store357_def post3_def post5_def post7_def)
  from not_found_is_plain_error [OF h k, of titleY "Inr post101" _ "''Failed to update post''"]
       not_found_is_plain_error [OF h k, of titleY "Inr post101" _ "''Post not found''"] h k
  show ?thesis by simp
qed

section \<open>Create\<close>

text \<open>
  C3, as the store has it. When the temporary id \<open>Date.now()\<close> is the id of no record
  of the collection and the remote create fails, the collection after the rollback is
  the collection before the call, the error field holds the failure and the promise
  rejects with it (a caught value that is no \<open>Error\<close> is replaced by
  \<open>Error('Failed to create post')\<close>); \<open>loading\<close> is untouched.
\<close>

theorem create_rollback_restores:
  assumes "tempId \<notin> set (map post_id (posts s))"
  shows "posts (final s (zustand_createPost tempId d (Inl err) s)) = posts s
       \<and> error (final s (zustand_createPost tempId d (Inl err) s))
           = Some (as_error ''Failed to create post'' err)
       \<and> result (zustand_createPost tempId d (Inl err) s)
           = Inl (as_error ''Failed to create post'' err)
       \<and> error (final s (zustand_createPost tempId d (Inl (ThrownError e)) s)) = Some e
       \<and> result (zustand_createPost tempId d (Inl (ThrownError e)) s) = Inl e
       \<and> loading (final s (zustand_createPost tempId d (Inl err) s)) = loading s
       \<and> calls (zustand_createPost tempId d (Inl err) s) = [Create d]"
  using filter_id_absent [OF assms]
  by (simp add: zustand_createPost_def final_def optimisticPost_def as_error_def)

theorem create_rollback_restores_witness:
  "9 \<notin> set (map post_id (posts store357))
   \<and> posts (final store357 (zustand_createPost 9 dataAB
        (Inl (ThrownError (Error ''Failed to create post''))) store357)) = [post3, post5, post7]
   \<and> error (final store357 (zustand_createPost 9 dataAB
        (Inl (ThrownError (Error ''Failed to create post''))) store357))
       = Some (Error ''Failed to create post'')"
proof -
  have h: "9 \<notin> set (map post_id (posts store357))"
    by (simp add: store357_def post3_def post5_def post7_def)
  from create_rollback_restores [OF h, of dataAB "ThrownError (Error ''Failed to create post'')"] h
  show ?thesis by (simp add: store357_def as_error_def)
qed

text \<open>
  The rollback filters on the temporary id alone: when a record of the collection
  already has that id, it is removed together with the placeholder.
\<close>

theorem create_rollback_counterexample:
  "posts (final storeT (zustand_createPost 1762041600000 dataAB
      (Inl (ThrownError (Error ''Failed to create post''))) storeT)) = [post3, post5, post7]
   \<and> posts storeT = [postT, post3, post5, post7]
   \<and> posts (final storeT (zustand_createPost 1762041600000 dataAB
      (Inl (ThrownError (Error ''Failed to create post''))) storeT)) \<noteq> posts storeT"
  by (simp add: zustand_createPost_def final_def optimisticPost_def storeT_def postT_def
      post3_def post5_def post7_def)

section \<open>Update\<close>

text \<open>
  C4, as the store has it. Let the lookup for \<open>i\<close> find the record \<open>r\<close>, and let the
  partial data \<open>d\<close> carry no id other than \<open>i\<close>. The state published at once has, at
  every position that held id \<open>i\<close>, the shallow merge of \<open>d\<close> onto the record there
  (a field absent from \<open>d\<close> keeps its value, a field present takes the value of \<open>d\<close>), and
  every other position unchanged. When the remote update fails, every position that
  held id \<open>i\<close> holds exactly \<open>r\<close> again and the others are unchanged, so a collection
  with distinct ids is the collection before the call; the error field holds the
  failure and the promise rejects with it.
\<close>

theorem update_optimistic_and_rollback:
  assumes "find_post i (posts s) = Some r"
      and "id_opt d = None \<or> id_opt d = Some i"
  shows "posts (hd (trace (zustand_updatePost i d outcome s)))
           = map (\<lambda>p. if post_id p = i then merge_post p d else p) (posts s)
       \<and> length (posts (hd (trace (zustand_updatePost i d outcome s)))) = length (posts s)
       \<and> (\<forall>k < length (posts s).
            posts (hd (trace (zustand_updatePost i d outcome s))) ! k
              = (if post_id (posts s ! k) = i then merge_post (posts s ! k) d else posts s ! k))
       \<and> (title_opt d = None \<longrightarrow> title (merge_post r d) = title r)
       \<and> (body_opt d = None \<longrightarrow> body (merge_post r d) = body r)
       \<and> (userId_opt d = None \<longrightarrow> userId (merge_post r d) = userId r)
       \<and> (\<forall>v. title_opt d = Some v \<longrightarrow> title (merge_post r d) = v)
       \<and> (\<forall>v. body_opt d = Some v \<longrightarrow> body (merge_post r d) = v)
       \<and> (\<forall>v. userId_opt d = Some v \<longrightarrow> userId (merge_post r d) = v)
       \<and> post_id (merge_post r d) = i
       \<and> length (posts (final s (zustand_updatePost i d (Inl err) s))) = length (posts s)
       \<and> (\<forall>k < length (posts s).
            posts (final s (zustand_updatePost i d (Inl err) s)) ! k
              = (if post_id (posts s ! k) = i then r else posts s ! k))
       \<and> (distinct (map post_id (posts s)) \<longrightarrow>
            posts (final s (zustand_updatePost i d (Inl err) s)) = posts s)
       \<and> error (final s (zustand_updatePost i d (Inl err) s))
           = Some (as_error ''Failed to update post'' err)
       \<and> result (zustand_updatePost i d (Inl err) s)
           = Inl (as_error ''Failed to update post'' err)
       \<and> error (final s (zustand_updatePost i d (Inl (ThrownError e)) s)) = Some e
       \<and> result (zustand_updatePost i d (Inl (ThrownError e)) s) = Inl e
       \<and> calls (zustand_updatePost i d (Inl err) s) = [Update i d]"
proof -
  have ri: "post_id r = i" using assms(1) by (simp add: find_post_Some)
  have keep: "\<And>p. post_id p = i \<Longrightarrow> post_id (merge_post p d) = i"
    using assms(2) merge_post_same_id by blast
  have opt: "posts (hd (trace (zustand_updatePost i d outcome s)))
           = map (\<lambda>p. if post_id p = i then merge_post p d else p) (posts s)"
    using assms(1) by (cases outcome) (simp_all add: zustand_updatePost_def)
  have fin: "posts (final s (zustand_updatePost i d (Inl err) s))
           = map (\<lambda>p. if post_id p = i then r else p) (posts s)"
    using assms(1) keep by (simp add: zustand_updatePost_def final_def comp_def if_distrib cong: if_cong)
  have m: "(title_opt d = None \<longrightarrow> title (merge_post r d) = title r)
       \<and> (body_opt d = None \<longrightarrow> body (merge_post r d) = body r)
       \<and> (userId_opt d = None \<longrightarrow> userId (merge_post r d) = userId r)
       \<and> (\<forall>v. title_opt d = Some v \<longrightarrow> title (merge_post r d) = v)
       \<and> (\<forall>v. body_opt d = Some v \<longrightarrow> body (merge_post r d) = v)
       \<and> (\<forall>v. userId_opt d = Some v \<longrightarrow> userId (merge_post r d) = v)
       \<and> post_id (merge_post r d) = i"
    using keep ri by (simp add: merge_post_def)
  have d: "distinct (map post_id (posts s)) \<longrightarrow>
            posts (final s (zustand_updatePost i d (Inl err) s)) = posts s"
    using fin map_replace_distinct [OF _ assms(1)] by simp
  have e: "error (final s (zustand_updatePost i d (Inl err) s))
           = Some (as_error ''Failed to update post'' err)
       \<and> result (zustand_updatePost i d (Inl err) s)
           = Inl (as_error ''Failed to update post'' err)
       \<and> error (final s (zustand_updatePost i d (Inl (ThrownError e)) s)) = Some e
       \<and> result (zustand_updatePost i d (Inl (ThrownError e)) s) = Inl e
       \<and> calls (zustand_updatePost i d (Inl err) s) = [Update i d]"
    using assms(1) by (simp add: zustand_updatePost_def final_def as_error_def)
  show ?thesis using m d e by (simp add: opt fin)
qed

theorem update_optimistic_and_rollback_witness:
  "find_post 5 (posts store357) = Some post5
   \<and> (id_opt titleY = None \<or> id_opt titleY = Some 5)
   \<and> map title (posts (hd (trace (zustand_updatePost 5 titleY
        (Inl (ThrownError (Error ''Failed to update post''))) store357))))
       = [''third'', ''Y'', ''seventh'']
   \<and> posts (final store357 (zustand_updatePost 5 titleY
        (Inl (ThrownError (Error ''Failed to update post''))) store357)) = posts store357"
proof -
  have h: "find_post 5 (posts store357) = Some post5"
    by (simp add: store357_def post3_def post5_def post7_def find_post_def)
  have k: "id_opt titleY = None \<or> id_opt titleY = Some 5"
    by (simp add: titleY_def)
  have dst: "distinct (map post_id (posts store357))"
    by (simp add: store357_def post3_def post5_def post7_def)
  from update_optimistic_and_rollback [OF h k,
        of "Inl (ThrownError (Error ''Failed to update post''))"
           "ThrownError (Error ''Failed to update post'')"] h k dst
  show ?thesis
    by (simp add: store357_def post3_def post5_def post7_def titleY_def merge_post_def)
qed

text \<open>
  The partial data may carry an id. The optimistic merge then renames the record, and
  the rollback, which looks for the old id, restores nothing.
\<close>

theorem update_rollback_counterexample:
  "find_post 5 (posts store5) = Some post5
   \<and> posts (final store5 (zustand_updatePost 5 idTo7
        (Inl (ThrownError (Error ''Failed to update post''))) store5))
       = [\<lparr>post_id = 7, userId = 1, title = ''Y'', body = ''e''\<rparr>]
   \<and> find_post 5 (posts (final store5 (zustand_updatePost 5 idTo7
        (Inl (ThrownError (Error ''Failed to update post''))) store5))) = None
   \<and> posts (final store5 (zustand_updatePost 5 idTo7
        (Inl (ThrownError (Error ''Failed to update post''))) store5)) \<noteq> posts store5"
  by (simp add: zustand_updatePost_def final_def store5_def post5_def idTo7_def
      merge_post_def find_post_def)

section \<open>Delete\<close>

text \<open>
  C5, as the store has it. Let the ids of the collection be pairwise distinct and let
  the lookup for \<open>i\<close> find the record \<open>r\<close>. The state published at once is the
  collection with exactly \<open>r\<close> taken out of its place, the others unchanged and in
  order. When the remote delete fails, the collection published after the rollback is
  in ascending order of id and holds the records of the collection before the call,
  \<open>r\<close> among them; a collection that was in ascending order, as the ids 3, 5, 7 are,
  is the collection before the call again. The error field holds the failure and the
  promise rejects with it.
\<close>

theorem delete_optimistic_and_rollback:
  assumes "find_post i (posts s) = Some r"
      and "distinct (map post_id (posts s))"
  shows "posts (hd (trace (zustand_deletePost i outcome s)))
           = filter (\<lambda>p. post_id p \<noteq> i) (posts s)
       \<and> (\<exists>xs ys. posts s = xs @ r # ys
               \<and> posts (hd (trace (zustand_deletePost i outcome s))) = xs @ ys)
       \<and> sorted (map post_id (posts (final s (zustand_deletePost i (Inl err) s))))
       \<and> mset (posts (final s (zustand_deletePost i (Inl err) s)))
           = mset (filter (\<lambda>p. post_id p \<noteq> i) (posts s)) + {#r#}
       \<and> mset (posts (final s (zustand_deletePost i (Inl err) s))) = mset (posts s)
       \<and> (sorted (map post_id (posts s)) \<longrightarrow>
            posts (final s (zustand_deletePost i (Inl err) s)) = posts s)
       \<and> error (final s (zustand_deletePost i (Inl err) s))
           = Some (as_error ''Failed to delete post'' err)
       \<and> result (zustand_deletePost i (Inl err) s)
           = Inl (as_error ''Failed to delete post'' err)
       \<and> error (final s (zustand_deletePost i (Inl (ThrownError e)) s)) = Some e
       \<and> result (zustand_deletePost i (Inl (ThrownError e)) s) = Inl e
       \<and> calls (zustand_deletePost i (Inl err) s) = [Delete i]"
proof -
  have opt: "posts (hd (trace (zustand_deletePost i outcome s)))
           = filter (\<lambda>p. post_id p \<noteq> i) (posts s)"
    using assms(1) by (cases outcome) (simp_all add: zustand_deletePost_def)
  have fin: "posts (final s (zustand_deletePost i (Inl err) s))
           = sort_key post_id (filter (\<lambda>p. post_id p \<noteq> i) (posts s) @ [r])"
    using assms(1) by (simp add: zustand_deletePost_def final_def js_sort_by_id)
  have ex: "\<exists>xs ys. posts s = xs @ r # ys
               \<and> posts (hd (trace (zustand_deletePost i outcome s))) = xs @ ys"
    using distinct_split_at_record [OF assms(2) assms(1)] by (simp only: opt)
  have rst: "sorted (map post_id (posts s)) \<longrightarrow>
            posts (final s (zustand_deletePost i (Inl err) s)) = posts s"
    using sort_restores_sorted_collection [OF assms(2) assms(1)] by (simp only: fin) blast
  have e: "error (final s (zustand_deletePost i (Inl err) s))
           = Some (as_error ''Failed to delete post'' err)
       \<and> result (zustand_deletePost i (Inl err) s)
           = Inl (as_error ''Failed to delete post'' err)
       \<and> error (final s (zustand_deletePost i (Inl (ThrownError e)) s)) = Some e
       \<and> result (zustand_deletePost i (Inl (ThrownError e)) s) = Inl e
       \<and> calls (zustand_deletePost i (Inl err) s) = [Delete i]"
    using assms(1) by (simp add: zustand_deletePost_def final_def as_error_def)
  have srt: "sorted (map post_id (posts (final s (zustand_deletePost i (Inl err) s))))"
    by (simp only: fin sorted_sort_key)
  have ms: "mset (posts (final s (zustand_deletePost i (Inl err) s)))
           = mset (filter (\<lambda>p. post_id p \<noteq> i) (posts s)) + {#r#}"
    by (simp add: fin)
  have all: "mset (posts (final s (zustand_deletePost i (Inl err) s))) = mset (posts s)"
    using mset_filter_record [OF assms(2) assms(1)] by (simp add: fin)
  from opt ex srt ms all rst e show ?thesis by blast
qed

theorem delete_optimistic_and_rollback_witness:
  "find_post 5 (posts store357) = Some post5
   \<and> distinct (map post_id (posts store357))
   \<and> map post_id (posts store357) = [3, 5, 7]
   \<and> map post_id (posts (hd (trace (zustand_deletePost 5
        (Inl (ThrownError (Error ''Failed to delete post''))) store357)))) = [3, 7]
   \<and> posts (final store357 (zustand_deletePost 5
        (Inl (ThrownError (Error ''Failed to delete post''))) store357)) = [post3, post5, post7]
   \<and> error (final store357 (zustand_deletePost 5
        (Inl (ThrownError (Error ''Failed to delete post''))) store357))
       = Some (Error ''Failed to delete post'')"
proof -
  have h: "find_post 5 (posts store357) = Some post5"
    by (simp add: store357_def post3_def post5_def post7_def find_post_def)
  have d: "distinct (map post_id (posts store357))"
    and s: "sorted (map post_id (posts store357))"
    by (simp_all add: store357_def post3_def post5_def post7_def)
  from delete_optimistic_and_rollback [OF h d,
        of "Inl (ThrownError (Error ''Failed to delete post''))"
           "ThrownError (Error ''Failed to delete post'')"] h d s
  show ?thesis
    by (simp add: store357_def post3_def post5_def post7_def as_error_def)
qed

text \<open>
  The optimistic step filters on the id, and the rollback puts back the one record the
  lookup found. Two creates answered with the id 101 lead to a store with two records
  of that id; deleting 101 there takes both out, and a failed remote delete brings one
  of them back.
\<close>

lemma two_creates_reach_duplicates:
  "posts (last (exec twoCreates_ops (fetched [post3, post5, post7] emptyStore)))
     = posts store101twice"
proof -
  have e: "map posts (exec twoCreates_ops (fetched [post3, post5, post7] emptyStore))
       = [[optimisticPost 1762041600000 dataAB, post3, post5, post7],
          [post101, post3, post5, post7],
          [optimisticPost 1762041660000 dataAB, post101, post3, post5, post7],
          [post101, post101, post3, post5, post7]]"
    by (simp add: twoCreates_ops_def fetched_def zustand_fetchPosts_def final_def emptyStore_def
        zustand_createPost_def optimisticPost_def dataAB_def Let_def
        post3_def post5_def post7_def post101_def)
  then have n: "exec twoCreates_ops (fetched [post3, post5, post7] emptyStore) \<noteq> []"
    by auto
  then have "posts (last (exec twoCreates_ops (fetched [post3, post5, post7] emptyStore)))
      = last (map posts (exec twoCreates_ops (fetched [post3, post5, post7] emptyStore)))"
    by (simp add: last_map)
  then show ?thesis
    by (simp only: e) (simp add: store101twice_def)
qed

theorem delete_optimistic_counterexample:
  "find_post 101 (posts store101twice) = Some post101
   \<and> posts store101twice = [post101, post101, post3, post5, post7]
   \<and> posts (hd (trace (zustand_deletePost 101
        (Inl (ThrownError (Error ''Failed to delete post''))) store101twice)))
       = [post3, post5, post7]
   \<and> posts (final store101twice (zustand_deletePost 101
        (Inl (ThrownError (Error ''Failed to delete post''))) store101twice))
       = [post3, post5, post7, post101]"
  by (simp add: zustand_deletePost_def final_def store101twice_def find_post_def js_sort_def
      by_id_def post3_def post5_def post7_def post101_def)

text \<open>
  C9. Let the lookup for \<open>i\<close> find \<open>r\<close>, let \<open>rest\<close> be the collection after the
  optimistic removal and \<open>after\<close> the collection after a failed remote delete. Then
  \<open>after\<close> is the whole of \<open>rest\<close> with \<open>r\<close> appended, sorted by id. The records other
  than \<open>r\<close> end up in sorted order: when they were not in ascending order of id their
  arrangement changes, and any two of them that stood in descending order of id stand
  the other way round afterwards. The context-api provider and the redux hook, through
  the reducer \<open>rollbackDelete\<close>, produce the same collection.
\<close>

theorem failed_delete_sorts_whole_collection:
  assumes "find_post i (posts s) = Some r"
      and "rest = filter (\<lambda>p. post_id p \<noteq> i) (posts s)"
      and "after = posts (final s (zustand_deletePost i (Inl err) s))"
  shows "after = js_sort by_id (rest @ [r])
       \<and> sorted (map post_id after)
       \<and> filter (\<lambda>p. post_id p \<noteq> i) after = js_sort by_id rest
       \<and> (\<not> sorted (map post_id rest) \<longrightarrow> filter (\<lambda>p. post_id p \<noteq> i) after \<noteq> rest)
       \<and> (\<forall>k l. k < l \<and> l < length rest \<and> post_id (rest ! l) < post_id (rest ! k) \<longrightarrow>
            (\<exists>k' l'. l' < k' \<and> k' < length after
               \<and> after ! l' = rest ! l \<and> after ! k' = rest ! k))
       \<and> posts (final s (context_deletePost i (Inl err) s)) = after
       \<and> posts (final s (redux_deletePost i (Inl err) s)) = after
       \<and> posts (rollbackDelete (optimisticDelete s i) r) = after"
proof -
  have ri: "post_id r = i" using assms(1) by (simp add: find_post_Some)
  have a: "after = js_sort by_id (rest @ [r])"
    using assms by (simp add: zustand_deletePost_def final_def)
  then have a': "after = sort_key post_id (rest @ [r])"
    by (simp only: js_sort_by_id)
  have srt: "sorted (map post_id after)"
    by (simp only: a' sorted_sort_key)
  have "filter (\<lambda>p. post_id p \<noteq> i) (rest @ [r]) = rest"
    using ri by (simp add: assms(2))
  then have oth: "filter (\<lambda>p. post_id p \<noteq> i) after = js_sort by_id rest"
    by (simp only: a' filter_sort js_sort_by_id)
  have ns: "\<not> sorted (map post_id rest) \<longrightarrow> filter (\<lambda>p. post_id p \<noteq> i) after \<noteq> rest"
  proof
    assume n: "\<not> sorted (map post_id rest)"
    show "filter (\<lambda>p. post_id p \<noteq> i) after \<noteq> rest"
    proof
      assume "filter (\<lambda>p. post_id p \<noteq> i) after = rest"
      with oth have "rest = sort_key post_id rest" by (simp add: js_sort_by_id)
      then have "sorted (map post_id rest)" by (metis sorted_sort_key)
      with n show False by simp
    qed
  qed
  have sub: "set rest \<subseteq> set after" by (auto simp: a')
  have inv: "\<forall>k l. k < l \<and> l < length rest \<and> post_id (rest ! l) < post_id (rest ! k) \<longrightarrow>
            (\<exists>k' l'. l' < k' \<and> k' < length after
               \<and> after ! l' = rest ! l \<and> after ! k' = rest ! k)"
    using inversion_reordered [OF srt sub] by blast
  have c: "posts (final s (context_deletePost i (Inl err) s)) = after"
    using assms by (simp add: context_deletePost_def zustand_deletePost_def final_def Let_def)
  have x: "posts (rollbackDelete (optimisticDelete s i) r) = after"
    by (simp add: rollbackDelete_def optimisticDelete_def a assms(2))
  have y: "posts (final s (redux_deletePost i (Inl err) s)) = after"
    using assms(1) x by (simp add: redux_deletePost_def final_def Let_def)
  from a srt oth ns inv c x y show ?thesis by blast
qed

theorem failed_delete_sorts_whole_collection_witness:
  "find_post 5 (posts storeT) = Some post5
   \<and> posts storeT = [postT, post3, post5, post7]
   \<and> filter (\<lambda>p. post_id p \<noteq> 5) (posts storeT) = [postT, post3, post7]
   \<and> posts (final storeT (zustand_deletePost 5
        (Inl (ThrownError (Error ''Failed to delete post''))) storeT))
       = [post3, post5, post7, postT]"
proof -
  have h: "find_post 5 (posts storeT) = Some post5"
    by (simp add: storeT_def postT_def post3_def post5_def post7_def find_post_def)
  have f: "filter (\<lambda>p. post_id p \<noteq> 5) (posts storeT) = [postT, post3, post7]"
    by (simp add: storeT_def postT_def post3_def post5_def post7_def)
  have "js_sort by_id ([postT, post3, post7] @ [post5]) = [post3, post5, post7, postT]"
    by (simp add: js_sort_def by_id_def postT_def post3_def post5_def post7_def)
  with failed_delete_sorts_whole_collection [OF h refl refl,
        of "ThrownError (Error ''Failed to delete post'')"] h f
  show ?thesis by (simp add: storeT_def)
qed

section \<open>Reconciliation of a create\<close>

text \<open>
  In the zustand store and in the context-api provider, a create whose remote call
  returns \<open>R\<close> first publishes the collection with the placeholder in front, then the
  collection with \<open>R\<close> in front, and resolves to \<open>R\<close>.
\<close>

lemma zustand_create_reconciles:
  "posts (hd (trace (zustand_createPost tempId d (Inr R) s))) = optimisticPost tempId d # posts s
   \<and> post_id (hd (posts (hd (trace (zustand_createPost tempId d (Inr R) s))))) = tempId
   \<and> hd (posts (final s (zustand_createPost tempId d (Inr R) s))) = R
   \<and> length (posts (final s (zustand_createPost tempId d (Inr R) s))) = Suc (length (posts s))
   \<and> tl (posts (final s (zustand_createPost tempId d (Inr R) s)))
       = map (\<lambda>p. if post_id p = tempId then R else p) (posts s)
   \<and> result (zustand_createPost tempId d (Inr R) s) = Inr R
   \<and> context_createPost tempId d (Inr R) s = zustand_createPost tempId d (Inr R) s"
  by (simp add: zustand_createPost_def context_createPost_def final_def optimisticPost_def)

text \<open>
  C2, at the recoil action. \<open>createPostAction\<close> maps over the array it was given, which
  never held the placeholder: after the remote create returned \<open>post101\<close> the
  collection is the one before the call, and \<open>post101\<close> is in it nowhere, although the
  promise resolves to it. The zustand store puts \<open>post101\<close> in front.
\<close>

theorem recoil_create_drops_record:
  "posts (hd (trace (recoil_createPost 1762041600000 dataAB (Inr post101) store357)))
     = [postT, post3, post5, post7]
   \<and> posts (final store357 (recoil_createPost 1762041600000 dataAB (Inr post101) store357))
     = [post3, post5, post7]
   \<and> result (recoil_createPost 1762041600000 dataAB (Inr post101) store357) = Inr post101
   \<and> posts (final store357 (zustand_createPost 1762041600000 dataAB (Inr post101) store357))
     = [post101, post3, post5, post7]"
  by (simp add: recoil_createPost_def createPostAction_def zustand_createPost_def final_def
      optimisticPost_def store357_def postT_def dataAB_def post101_def post3_def post5_def
      post7_def)

section \<open>The variants compared\<close>

text \<open>The context-api provider and the zustand store run alike on every input.\<close>

lemma context_equals_zustand:
  "context_createPost tempId d outcome s = zustand_createPost tempId d outcome s
   \<and> context_updatePost i pd outcome s = zustand_updatePost i pd outcome s
   \<and> context_deletePost i outcome' s = zustand_deletePost i outcome' s"
  by (simp add: context_createPost_def zustand_createPost_def context_updatePost_def
      zustand_updatePost_def context_deletePost_def zustand_deletePost_def Let_def
      split: sum.splits option.splits)

text \<open>
  C8, where the recoil actions part from the other two. After a successful create on
  the empty store the zustand and context-api collections hold the created record and
  the recoil collection is empty; after a failed delete of id 5 from the ids 3, 5, 7
  the recoil collection holds the record of id 5 twice, because it appends the deleted
  record to the array that still contains it.
\<close>

theorem recoil_differs_from_zustand:
  "final emptyStore (recoil_createPost 1762041600000 dataAB (Inr post101) emptyStore)
     = \<lparr>posts = [], loading = False, error = None\<rparr>
   \<and> final emptyStore (zustand_createPost 1762041600000 dataAB (Inr post101) emptyStore)
     = \<lparr>posts = [post101], loading = False, error = None\<rparr>
   \<and> final emptyStore (context_createPost 1762041600000 dataAB (Inr post101) emptyStore)
     = \<lparr>posts = [post101], loading = False, error = None\<rparr>
   \<and> posts (final store357 (recoil_deletePost 5
        (Inl (ThrownError (Error ''Failed to delete post''))) store357))
     = [post3, post5, post5, post7]
   \<and> posts (final store357 (zustand_deletePost 5
        (Inl (ThrownError (Error ''Failed to delete post''))) store357))
     = [post3, post5, post7]
   \<and> posts (final store357 (context_deletePost 5
        (Inl (ThrownError (Error ''Failed to delete post''))) store357))
     = [post3, post5, post7]"
  by (simp add: recoil_createPost_def createPostAction_def zustand_createPost_def
      context_createPost_def recoil_deletePost_def deletePostAction_def zustand_deletePost_def
      context_deletePost_def final_def optimisticPost_def emptyStore_def store357_def
      find_post_def js_sort_def by_id_def post3_def post5_def post7_def Let_def as_error_def)

section \<open>Uniqueness of ids\<close>

text \<open>
  C1, as the stores have it. Start from a fetched collection with pairwise distinct ids
  and run creates, updates and deletes whose remote calls all succeed. If every
  operation brings in only new ids (\<open>ops_fresh\<close>; for the redux slice
  \<open>redux_ops_fresh\<close>, which moreover wants the temporary ids above 1000), every state
  the store publishes, after each optimistic step and after each reconciliation, has
  pairwise distinct ids. This holds for the zustand store and for the redux slice.
\<close>

theorem ids_stay_distinct:
  assumes "distinct (map post_id S)"
  shows "(ops_fresh ops (fetched S s0) \<longrightarrow>
           (\<forall>s' \<in> set (exec ops (fetched S s0)). distinct (map post_id (posts s'))))
       \<and> (redux_ops_fresh ops (redux_fetched S s0) \<longrightarrow>
           (\<forall>s' \<in> set (redux_exec ops (redux_fetched S s0)). distinct (map post_id (posts s'))))"
proof -
  have "posts (fetched S s0) = S"
    by (simp add: fetched_def zustand_fetchPosts_def final_def)
  with assms have z: "distinct (map post_id (posts (fetched S s0)))"
    by simp
  have "posts (redux_fetched S s0) = S"
    by (simp add: redux_fetched_def fetchPosts_fulfilled_def)
  with assms have r: "distinct (map post_id (posts (redux_fetched S s0)))"
    by simp
  from exec_keeps_distinct [OF z] redux_exec_keeps_distinct [OF r] show ?thesis
    by blast
qed

theorem ids_stay_distinct_witness:
  "distinct (map post_id [post3, post5, post7])
   \<and> ops_fresh serverIds_ops (fetched [post3, post5, post7] emptyStore)
   \<and> list_all (\<lambda>s'. distinct (map post_id (posts s')))
         (exec serverIds_ops (fetched [post3, post5, post7] emptyStore))
   \<and> map (\<lambda>s'. map post_id (posts s')) (exec serverIds_ops (fetched [post3, post5, post7] emptyStore))
       = [[1762041600000, 3, 5, 7], [101, 3, 5, 7], [101, 3, 5, 7], [101, 3, 5, 7], [101, 5, 7]]
   \<and> redux_ops_fresh serverIds_ops (redux_fetched [post3, post5, post7] emptyStore)
   \<and> list_all (\<lambda>s'. distinct (map post_id (posts s')))
         (redux_exec serverIds_ops (redux_fetched [post3, post5, post7] emptyStore))
   \<and> map (\<lambda>s'. map post_id (posts s'))
         (redux_exec serverIds_ops (redux_fetched [post3, post5, post7] emptyStore))
       = [[1762041600000, 3, 5, 7], [101, 3, 5, 7], [101, 3, 5, 7], [101, 3, 5, 7], [101, 5, 7]]"
proof -
  have d: "distinct (map post_id [post3, post5, post7])"
    by (simp add: post3_def post5_def post7_def)
  have f: "ops_fresh serverIds_ops (fetched [post3, post5, post7] emptyStore)"
    by (simp add: serverIds_ops_def fetched_def zustand_fetchPosts_def final_def emptyStore_def
        zustand_createPost_def zustand_updatePost_def zustand_deletePost_def find_post_def
        optimisticPost_def merge_post_def titleY_def dataAB_def Let_def
        post3_def post5_def post7_def post101_def)
  have t: "map (\<lambda>s'. map post_id (posts s')) (exec serverIds_ops (fetched [post3, post5, post7] emptyStore))
       = [[1762041600000, 3, 5, 7], [101, 3, 5, 7], [101, 3, 5, 7], [101, 3, 5, 7], [101, 5, 7]]"
    by (simp add: serverIds_ops_def fetched_def zustand_fetchPosts_def final_def emptyStore_def
        zustand_createPost_def zustand_updatePost_def zustand_deletePost_def find_post_def
        optimisticPost_def merge_post_def titleY_def dataAB_def Let_def
        post3_def post5_def post7_def post101_def)
  have rf: "redux_ops_fresh serverIds_ops (redux_fetched [post3, post5, post7] emptyStore)"
    by (simp add: serverIds_ops_def redux_fetched_def fetchPosts_fulfilled_def
        fetchPosts_pending_def emptyStore_def redux_createPost_def redux_updatePost_def
        redux_deletePost_def optimisticCreate_def createPostThunk_fulfilled_def
        optimisticUpdate_def updatePostThunk_fulfilled_def optimisticDelete_def find_post_def
        optimisticPost_def merge_post_def titleY_def dataAB_def Let_def
        post3_def post5_def post7_def post101_def)
  have rt: "map (\<lambda>s'. map post_id (posts s'))
         (redux_exec serverIds_ops (redux_fetched [post3, post5, post7] emptyStore))
       = [[1762041600000, 3, 5, 7], [101, 3, 5, 7], [101, 3, 5, 7], [101, 3, 5, 7], [101, 5, 7]]"
    by (simp add: serverIds_ops_def redux_fetched_def fetchPosts_fulfilled_def
        fetchPosts_pending_def emptyStore_def redux_createPost_def redux_updatePost_def
        redux_deletePost_def optimisticCreate_def createPostThunk_fulfilled_def
        optimisticUpdate_def updatePostThunk_fulfilled_def optimisticDelete_def find_post_def
        optimisticPost_def merge_post_def titleY_def dataAB_def Let_def
        post3_def post5_def post7_def post101_def)
  from ids_stay_distinct [OF d, of serverIds_ops emptyStore] d f t rf rt show ?thesis
    by (simp add: list_all_iff)
qed

text \<open>
  Without that condition the ids need not stay distinct: the stores take the id of a
  created record from the server as it comes, and two creates answered with id 101
  leave two records of id 101.
\<close>

theorem ids_stay_distinct_counterexample:
  "distinct (map post_id [post3, post5, post7])
   \<and> map post_id (posts (last (exec twoCreates_ops (fetched [post3, post5, post7] emptyStore))))
       = [101, 101, 3, 5, 7]
   \<and> \<not> distinct (map post_id
         (posts (last (exec twoCreates_ops (fetched [post3, post5, post7] emptyStore)))))
   \<and> map post_id (posts (last (redux_exec twoCreates_ops
         (redux_fetched [post3, post5, post7] emptyStore)))) = [101, 101, 3, 5, 7]"
proof -
  have e: "map (\<lambda>s'. map post_id (posts s'))
             (exec twoCreates_ops (fetched [post3, post5, post7] emptyStore))
       = [[1762041600000, 3, 5, 7], [101, 3, 5, 7],
          [1762041660000, 101, 3, 5, 7], [101, 101, 3, 5, 7]]"
    by (simp add: twoCreates_ops_def fetched_def zustand_fetchPosts_def final_def emptyStore_def
        zustand_createPost_def optimisticPost_def dataAB_def Let_def
        post3_def post5_def post7_def post101_def)
  then have n: "exec twoCreates_ops (fetched [post3, post5, post7] emptyStore) \<noteq> []"
    by auto
  have "map post_id (posts (last (exec twoCreates_ops (fetched [post3, post5, post7] emptyStore))))
      = last (map (\<lambda>s'. map post_id (posts s'))
             (exec twoCreates_ops (fetched [post3, post5, post7] emptyStore)))"
    using n by (simp add: last_map)
  then have l: "map post_id (posts (last (exec twoCreates_ops
                  (fetched [post3, post5, post7] emptyStore)))) = [101, 101, 3, 5, 7]"
    by (simp only: e) simp
  have re: "map (\<lambda>s'. map post_id (posts s'))
             (redux_exec twoCreates_ops (redux_fetched [post3, post5, post7] emptyStore))
       = [[1762041600000, 3, 5, 7], [101, 3, 5, 7],
          [1762041660000, 101, 3, 5, 7], [101, 101, 3, 5, 7]]"
    by (simp add: twoCreates_ops_def redux_fetched_def fetchPosts_fulfilled_def
        fetchPosts_pending_def emptyStore_def redux_createPost_def optimisticCreate_def
        createPostThunk_fulfilled_def optimisticPost_def dataAB_def Let_def
        post3_def post5_def post7_def post101_def)
  then have rn: "redux_exec twoCreates_ops (redux_fetched [post3, post5, post7] emptyStore) \<noteq> []"
    by auto
  have "map post_id (posts (last (redux_exec twoCreates_ops
          (redux_fetched [post3, post5, post7] emptyStore))))
      = last (map (\<lambda>s'. map post_id (posts s'))
             (redux_exec twoCreates_ops (redux_fetched [post3, post5, post7] emptyStore)))"
    using rn by (simp add: last_map)
  then have rl: "map post_id (posts (last (redux_exec twoCreates_ops
                  (redux_fetched [post3, post5, post7] emptyStore)))) = [101, 101, 3, 5, 7]"
    by (simp only: re) simp
  have d: "distinct (map post_id [post3, post5, post7])"
    by (simp add: post3_def post5_def post7_def)
  from l rl d show ?thesis by simp
qed

end
